theory Spec2Isabelle
  imports Main "HOL-Library.Word"
begin

section \<open>Strings, bytes and errors\<close>

text \<open>
  A JavaScript string is modelled by a HOL \<open>string\<close>. The relay only changes the case of
  header names and of the HTTP method, which are ASCII tokens, so the case mappings act on
  the letters A..Z and a..z and leave every other character alone.
\<close>

type_synonym bytes = "8 word list"

definition toLowerChar :: "char \<Rightarrow> char" where
  "toLowerChar c =
     (case map_of (zip ''ABCDEFGHIJKLMNOPQRSTUVWXYZ'' ''abcdefghijklmnopqrstuvwxyz'') c of
        Some d \<Rightarrow> d
      | None \<Rightarrow> c)"

definition toUpperChar :: "char \<Rightarrow> char" where
  "toUpperChar c =
     (case map_of (zip ''abcdefghijklmnopqrstuvwxyz'' ''ABCDEFGHIJKLMNOPQRSTUVWXYZ'') c of
        Some d \<Rightarrow> d
      | None \<Rightarrow> c)"

definition toLowerCase :: "string \<Rightarrow> string" where
  "toLowerCase s = map toLowerChar s"

definition toUpperCase :: "string \<Rightarrow> string" where
  "toUpperCase s = map toUpperChar s"

text \<open>The decimal rendering of a natural number, as a template literal prints it.\<close>

fun digits :: "nat \<Rightarrow> string" where
  "digits n =
     (if n < 10 then [''0123456789'' ! n]
      else digits (n div 10) @ [''0123456789'' ! (n mod 10)])"

declare digits.simps [simp del]

text \<open>A thrown JavaScript error: its \<open>name\<close> and its \<open>message\<close>.\<close>

datatype jserror = JSError (name: string) (message: string)

section \<open>JSON values\<close>

text \<open>
  What \<open>JSON.parse\<close> returns. An object is the list of its entries (a parsed object has
  each key once; a lookup reads the first entry of a key). A number is carried by its
  \<open>Number::toString\<close> rendering, which is all the relay observes of a number: it is falsy
  exactly when it renders as \<open>0\<close> (both zeros) or \<open>NaN\<close>, and \<open>String\<close> returns the
  rendering.
\<close>

datatype json =
    JNull
  | JBool bool
  | JNum string
  | JStr string
  | JArr "json list"
  | JObj "(string \<times> json) list"

text \<open>JavaScript truthiness of a parsed value.\<close>

fun truthy :: "json \<Rightarrow> bool" where
  "truthy JNull = False"
| "truthy (JBool b) = b"
| "truthy (JNum s) = (s \<noteq> ''0'' \<and> s \<noteq> ''NaN'')"
| "truthy (JStr s) = (s \<noteq> [])"
| "truthy (JArr xs) = True"
| "truthy (JObj kvs) = True"

text \<open>
  \<open>String(v)\<close>. An array is joined with commas, a \<open>null\<close> element printing as the empty
  string. A plain object prints through \<open>Object.prototype.toString\<close>; when it has an own
  property \<open>toString\<close> (never callable in a parsed value) the conversion to a primitive
  finds no usable method and throws a \<open>TypeError\<close>.
\<close>

fun String_js :: "json \<Rightarrow> jserror + string"
  and join_js :: "json list \<Rightarrow> jserror + string" where
  "String_js JNull = Inr ''null''"
| "String_js (JBool b) = Inr (if b then ''true'' else ''false'')"
| "String_js (JNum s) = Inr s"
| "String_js (JStr s) = Inr s"
| "String_js (JArr xs) = join_js xs"
| "String_js (JObj kvs) =
     (if ''toString'' \<in> fst ` set kvs
      then Inl (JSError ''TypeError'' ''Cannot convert object to primitive value'')
      else Inr ''[object Object]'')"
| "join_js [] = Inr []"
| "join_js [x] = (if x = JNull then Inr [] else String_js x)"
| "join_js (x # y # ys) =
     (case (if x = JNull then Inr [] else String_js x) of
        Inl e \<Rightarrow> Inl e
      | Inr s \<Rightarrow>
          (case join_js (y # ys) of
             Inl e \<Rightarrow> Inl e
           | Inr t \<Rightarrow> Inr (s @ '','' @ t)))"

text \<open>
  Reading a property whose name no built-in prototype defines (\<open>entry\<close>, \<open>id\<close>,
  \<open>default\<close>, a platform name): an object gives its own entry, every other value but
  \<open>null\<close> gives \<open>undefined\<close> (\<open>None\<close>). Reading a property of \<open>null\<close> throws; the
  callers below write that branch out.
\<close>

definition field :: "json \<Rightarrow> string \<Rightarrow> json option" where
  "field v k = (case v of JObj kvs \<Rightarrow> map_of kvs k | _ \<Rightarrow> None)"

section \<open>extractId (lib/extractId.js)\<close>

text \<open>
  \<^verbatim>\<open>if (body?.entry && Array.isArray(body.entry) && body.entry.length > 0)\<close> holds exactly
  when \<open>entry\<close> is a non-empty array. \<^verbatim>\<open>firstEntry.id\<close> is then read without a guard, so a
  \<open>null\<close> first entry throws. The result is the id as a string, or \<open>null\<close> (\<open>None\<close>).
\<close>

definition extractId :: "json \<Rightarrow> jserror + string option" where
  "extractId body =
     (case field body ''entry'' of
        Some (JArr (firstEntry # rest)) \<Rightarrow>
          (if firstEntry = JNull
           then Inl (JSError ''TypeError'' ''Cannot read properties of null'')
           else
             (case field firstEntry ''id'' of
                Some x \<Rightarrow> (if truthy x then map_sum id Some (String_js x) else Inr None)
              | None \<Rightarrow> Inr None))
      | _ \<Rightarrow> Inr None)"

section \<open>Property reads with a dynamic key\<close>

text \<open>
  The value of a property read: \<open>undefined\<close>, a parsed value, or a member inherited from
  a built-in prototype (a function, or \<open>Object.prototype\<close> itself under \<open>__proto__\<close>),
  named by its property name. Inherited members are truthy.
\<close>

datatype val = Undefined | Json json | Builtin string

fun truthyV :: "val \<Rightarrow> bool" where
  "truthyV Undefined = False"
| "truthyV (Json j) = truthy j"
| "truthyV (Builtin n) = True"

fun typeof :: "json \<Rightarrow> string" where
  "typeof JNull = ''object''"
| "typeof (JBool b) = ''boolean''"
| "typeof (JNum s) = ''number''"
| "typeof (JStr s) = ''string''"
| "typeof (JArr xs) = ''object''"
| "typeof (JObj kvs) = ''object''"

text \<open>The property names of \<open>Object.prototype\<close> and of \<open>Array.prototype\<close> (ECMAScript 2023).\<close>

definition objectPrototypeKeys :: "string list" where
  "objectPrototypeKeys =
     [''constructor'', ''hasOwnProperty'', ''isPrototypeOf'', ''propertyIsEnumerable'',
      ''toLocaleString'', ''toString'', ''valueOf'', ''__proto__'',
      ''__defineGetter__'', ''__defineSetter__'', ''__lookupGetter__'', ''__lookupSetter__'']"

definition arrayPrototypeKeys :: "string list" where
  "arrayPrototypeKeys =
     [''at'', ''concat'', ''constructor'', ''copyWithin'', ''entries'', ''every'', ''fill'',
      ''filter'', ''find'', ''findIndex'', ''findLast'', ''findLastIndex'', ''flat'',
      ''flatMap'', ''forEach'', ''includes'', ''indexOf'', ''join'', ''keys'',
      ''lastIndexOf'', ''map'', ''pop'', ''push'', ''reduce'', ''reduceRight'', ''reverse'',
      ''shift'', ''slice'', ''some'', ''sort'', ''splice'', ''toLocaleString'',
      ''toReversed'', ''toSorted'', ''toSpliced'', ''toString'', ''unshift'', ''values'',
      ''with'']"

text \<open>
  \<^verbatim>\<open>obj[key]\<close> on a parsed object: the own entry, else the member inherited from
  \<open>Object.prototype\<close>, else \<open>undefined\<close>.
\<close>

definition objectGet :: "(string \<times> json) list \<Rightarrow> string \<Rightarrow> val" where
  "objectGet kvs k =
     (case map_of kvs k of
        Some v \<Rightarrow> Json v
      | None \<Rightarrow> (if k \<in> set objectPrototypeKeys then Builtin k else Undefined))"

text \<open>
  \<^verbatim>\<open>arr[key]\<close> on a parsed array: the element when the key is the decimal rendering of an
  index, the \<open>length\<close>, else the member inherited from \<open>Array.prototype\<close> or
  \<open>Object.prototype\<close>, else \<open>undefined\<close>.
\<close>

definition arrayGet :: "json list \<Rightarrow> string \<Rightarrow> val" where
  "arrayGet xs k =
     (case find (\<lambda>i. digits i = k) [0..<length xs] of
        Some i \<Rightarrow> Json (xs ! i)
      | None \<Rightarrow>
          (if k = ''length'' then Json (JNum (digits (length xs)))
           else if k \<in> set arrayPrototypeKeys \<or> k \<in> set objectPrototypeKeys then Builtin k
           else Undefined))"

text \<open>
  \<^verbatim>\<open>platformMap[key]\<close>. The resolver reads it only after its guard has established that
  \<open>platformMap\<close> is truthy and of type \<open>object\<close>, that is, an object or an array; the last
  case is never reached from it.
\<close>

definition getProp :: "json \<Rightarrow> string \<Rightarrow> val" where
  "getProp obj k =
     (case obj of
        JObj kvs \<Rightarrow> objectGet kvs k
      | JArr xs \<Rightarrow> arrayGet xs k
      | _ \<Rightarrow> Undefined)"

section \<open>The inbound request\<close>

text \<open>
  A query parameter is a string, or an array of strings when the parameter is repeated
  (the nested objects that bracketed parameter names can build are left out).
  \<open>req.headers\<close> is the entry list of Node's header object (names in lower case, one
  entry per name, string values). \<open>req.body\<close> is what \<open>express.raw\<close> left there: a
  \<open>Buffer\<close>, or something else when it read no body.
\<close>

datatype qval = QStr string | QArr "string list"

datatype reqbody = BodyBuffer bytes | BodyString string | BodyOther

record request =
  reqMethod :: string
  headers :: "(string \<times> string) list"
  query :: "(string \<times> qval) list"
  body :: reqbody

text \<open>The request as the raw-body middleware hands it on: with \<open>rawBody\<close> and \<open>parsedBody\<close>.\<close>

record prepared = request +
  rawBody :: bytes
  parsedBody :: json

datatype platform = Messenger | Instagram

fun platformName :: "platform \<Rightarrow> string" where
  "platformName Messenger = ''messenger''"
| "platformName Instagram = ''instagram''"

section \<open>resolveDownstream (server.js)\<close>

text \<open>Truthiness of a query field (\<open>None\<close> is \<open>undefined\<close>) and JavaScript's \<^verbatim>\<open>a || b\<close> on them.\<close>

fun truthyQ :: "qval option \<Rightarrow> bool" where
  "truthyQ None = False"
| "truthyQ (Some (QStr s)) = (s \<noteq> [])"
| "truthyQ (Some (QArr vs)) = True"

definition orElse :: "qval option \<Rightarrow> qval option \<Rightarrow> qval option" where
  "orElse a b = (if truthyQ a then a else b)"

text \<open>
  Lines 93-99: the id of the parsed body, pushed when the body is a truthy value of type
  \<open>object\<close> and the extracted id is truthy. \<open>extractId\<close> may throw.
\<close>

definition bodyCandidates :: "'a prepared_scheme \<Rightarrow> jserror + string list" where
  "bodyCandidates req =
     (if truthy (parsedBody req) \<and> typeof (parsedBody req) = ''object''
      then
        (case extractId (parsedBody req) of
           Inl e \<Rightarrow> Inl e
         | Inr None \<Rightarrow> Inr []
         | Inr (Some extractedId) \<Rightarrow> Inr (if extractedId \<noteq> [] then [extractedId] else []))
      else Inr [])"

text \<open>
  Lines 101-107: \<^verbatim>\<open>req.query?.id || req.query?.page_id || req.query?.ig_id\<close> selects one
  field; an array pushes all its elements, a truthy string pushes itself.
\<close>

definition queryId :: "'a request_scheme \<Rightarrow> qval option" where
  "queryId req =
     orElse (orElse (map_of (query req) ''id'') (map_of (query req) ''page_id''))
       (map_of (query req) ''ig_id'')"

definition queryCandidates :: "'a request_scheme \<Rightarrow> string list" where
  "queryCandidates req =
     (case queryId req of
        Some (QArr vs) \<Rightarrow> vs
      | Some (QStr s) \<Rightarrow> (if s \<noteq> [] then [s] else [])
      | None \<Rightarrow> [])"

definition candidates :: "'a prepared_scheme \<Rightarrow> jserror + string list" where
  "candidates req =
     (case bodyCandidates req of
        Inl e \<Rightarrow> Inl e
      | Inr fromBody \<Rightarrow> Inr (fromBody @ queryCandidates req))"

text \<open>The result of a resolution: \<open>key\<close> is a string or \<open>null\<close> (\<open>None\<close>).\<close>

record resolution =
  key :: "string option"
  url :: val

text \<open>The loop's test \<^verbatim>\<open>candidate && platformMap[candidate]\<close>.\<close>

definition matches :: "json \<Rightarrow> string \<Rightarrow> bool" where
  "matches platformMap candidate = (candidate \<noteq> [] \<and> truthyV (getProp platformMap candidate))"

text \<open>The loop of lines 109-113: the first matching candidate, if any.\<close>

fun firstMatch :: "json \<Rightarrow> string list \<Rightarrow> resolution option" where
  "firstMatch platformMap [] = None"
| "firstMatch platformMap (candidate # cs) =
     (if matches platformMap candidate
      then Some \<lparr>key = Some candidate, url = getProp platformMap candidate\<rparr>
      else firstMatch platformMap cs)"

text \<open>\<^verbatim>\<open>candidates[0] || null\<close>.\<close>

fun firstOrNull :: "string list \<Rightarrow> string option" where
  "firstOrNull [] = None"
| "firstOrNull (c # cs) = (if c \<noteq> [] then Some c else None)"

text \<open>
  \<open>mapping\<close> is the table as \<open>JSON.parse\<close> returned it. A \<open>null\<close> table cannot be indexed
  (\<open>loadMapping\<close> never leaves one behind: \<open>Object.keys(null)\<close> throws there).
\<close>

definition resolveDownstream ::
  "json \<Rightarrow> 'a prepared_scheme \<Rightarrow> platform \<Rightarrow> jserror + resolution" where
  "resolveDownstream mapping req platform =
     (if mapping = JNull then Inl (JSError ''TypeError'' ''Cannot read properties of null'')
      else
        (case field mapping (platformName platform) of
           None \<Rightarrow> Inr \<lparr>key = None, url = Json JNull\<rparr>
         | Some platformMap \<Rightarrow>
             (if \<not> truthy platformMap \<or> typeof platformMap \<noteq> ''object''
              then Inr \<lparr>key = None, url = Json JNull\<rparr>
              else
                (case candidates req of
                   Inl e \<Rightarrow> Inl e
                 | Inr cs \<Rightarrow>
                     (case firstMatch platformMap cs of
                        Some r \<Rightarrow> Inr r
                      | None \<Rightarrow>
                          (if truthyV (getProp platformMap ''default'')
                           then Inr \<lparr>key = Some ''default'',
                                     url = getProp platformMap ''default''\<rparr>
                           else Inr \<lparr>key = firstOrNull cs, url = Json JNull\<rparr>))))))"


text \<open>
  The candidate list as the spec words it: the body-derived identifier, then every value
  of \<open>id\<close>, of \<open>page_id\<close> and of \<open>ig_id\<close>.
\<close>

fun qvalues :: "qval option \<Rightarrow> string list" where
  "qvalues None = []"
| "qvalues (Some (QStr s)) = [s]"
| "qvalues (Some (QArr vs)) = vs"

definition spec_candidates :: "string list \<Rightarrow> (string \<times> qval) list \<Rightarrow> string list" where
  "spec_candidates fromBody q =
     fromBody @ qvalues (map_of q ''id'') @ qvalues (map_of q ''page_id'')
       @ qvalues (map_of q ''ig_id'')"

section \<open>Header sanitization (lib/forward.js)\<close>

definition HOP_BY_HOP_HEADERS :: "string list" where
  "HOP_BY_HOP_HEADERS =
     [''transfer-encoding'', ''connection'', ''keep-alive'', ''proxy-authenticate'',
      ''proxy-authorization'', ''te'', ''trailers'', ''upgrade'', ''content-length'', ''host'']"

text \<open>
  A header object is the list of its entries in insertion order (header names are not
  array indices, which JavaScript would enumerate first). The assignment
  \<^verbatim>\<open>obj[k] = v\<close> replaces the value of a key the object has, in place, and appends a new
  key otherwise.
\<close>

fun setProp :: "(string \<times> 'v) list \<Rightarrow> string \<Rightarrow> 'v \<Rightarrow> (string \<times> 'v) list" where
  "setProp [] k v = [(k, v)]"
| "setProp ((k', v') # kvs) k v =
     (if k' = k then (k, v) # kvs else (k', v') # setProp kvs k v)"

text \<open>
  \<open>filterHeaders\<close> loops over \<^verbatim>\<open>headers.entries()\<close> of the destination's response. The
  iterator of a Fetch \<open>Headers\<close> object yields the names in lower case, one pair per name
  with the values joined, except \<open>set-cookie\<close>, which yields one pair per value: a key may
  repeat in the argument.
\<close>

definition filterHeaders :: "(string \<times> string) list \<Rightarrow> (string \<times> string) list" where
  "filterHeaders entries =
     foldl (\<lambda>filtered (k, v).
              if toLowerCase k \<notin> set HOP_BY_HOP_HEADERS then setProp filtered k v else filtered)
       [] entries"

text \<open>\<open>sanitizeIncomingHeaders\<close> loops over \<^verbatim>\<open>Object.entries(incomingHeaders)\<close>.\<close>

definition sanitizeIncomingHeaders :: "(string \<times> string) list \<Rightarrow> (string \<times> string) list" where
  "sanitizeIncomingHeaders incomingHeaders =
     foldl (\<lambda>sanitized (k, v).
              if toLowerCase k \<notin> set HOP_BY_HOP_HEADERS then setProp sanitized k v else sanitized)
       [] incomingHeaders"

section \<open>forwardRequest (lib/forward.js)\<close>

text \<open>The options handed to \<open>fetch\<close>; \<open>fo_body\<close> is absent for GET and HEAD.\<close>

record fetchOptions =
  fo_method :: string
  fo_headers :: "(string \<times> string) list"
  fo_body :: "bytes option"

text \<open>
  A promise either stays pending for ever or settles, at some number of milliseconds
  after the call, with an error (\<open>Inl\<close>) or a value (\<open>Inr\<close>).
\<close>

datatype 'a settle = Never | At nat 'a

text \<open>
  What the destination does with one call, were nothing aborted: \<open>head\<close> is the promise
  of \<open>fetch\<close> (it fulfils with the status and the header entries once the response head
  has arrived), \<open>payload\<close> the promise of \<^verbatim>\<open>response.arrayBuffer()\<close>.
\<close>

record exchange =
  head :: "(jserror + nat \<times> (string \<times> string) list) settle"
  payload :: "(jserror + bytes) settle"

text \<open>The value \<open>forwardRequest\<close> returns: \<open>status\<close>, \<open>body\<close>, \<open>headers\<close>.\<close>

record forwarded =
  status :: nat
  resBody :: bytes
  resHeaders :: "(string \<times> string) list"

text \<open>\<open>setTimeout\<close> runs a delay outside 1..2147483647 as 1 ms.\<close>

definition timerDelay :: "nat \<Rightarrow> nat" where
  "timerDelay timeoutMs = (if 1 \<le> timeoutMs \<and> timeoutMs \<le> 2147483647 then timeoutMs else 1)"

text \<open>The \<open>catch\<close> block: an \<open>AbortError\<close> becomes the timeout error, any other is rethrown.\<close>

definition rethrow :: "nat \<Rightarrow> jserror \<Rightarrow> jserror" where
  "rethrow timeoutMs e =
     (if name e = ''AbortError''
      then JSError ''Error'' (''Request timeout after '' @ digits timeoutMs @ ''ms'')
      else e)"

text \<open>Lines 85-107: the sanitized headers, the relay key, the method and the body.\<close>

definition fetchOptionsFor ::
  "bytes \<Rightarrow> (string \<times> string) list \<Rightarrow> string option \<Rightarrow> string \<Rightarrow> fetchOptions" where
  "fetchOptionsFor raw incomingHeaders relayId m =
     (let sanitizedHeaders = sanitizeIncomingHeaders incomingHeaders;
          withKey =
            (case relayId of
               Some r \<Rightarrow>
                 (if r \<noteq> [] then setProp sanitizedHeaders ''x-relay-key'' r
                  else sanitizedHeaders)
             | None \<Rightarrow> sanitizedHeaders);
          upperMethod = toUpperCase m;
          shouldIncludeBody = (upperMethod \<notin> set [''GET'', ''HEAD''])
      in \<lparr>fo_method = upperMethod, fo_headers = withKey,
           fo_body = (if shouldIncludeBody then Some raw else None)\<rparr>)"

text \<open>
  Lines 91-131. The timer aborts the call at \<open>timerDelay timeoutMs\<close> unless \<open>fetch\<close> has
  settled before (a settlement in the same millisecond is given to the timer); the abort
  rejects \<open>fetch\<close> with an \<open>AbortError\<close>. Once \<open>fetch\<close> has fulfilled, \<open>clearTimeout\<close> runs
  and \<^verbatim>\<open>await response.arrayBuffer()\<close> follows with no timer armed.
\<close>

definition forwardRequest ::
  "(string \<Rightarrow> fetchOptions \<Rightarrow> exchange) \<Rightarrow> string \<Rightarrow> bytes \<Rightarrow> (string \<times> string) list
     \<Rightarrow> string option \<Rightarrow> nat \<Rightarrow> string \<Rightarrow> (jserror + forwarded) settle" where
  "forwardRequest fetch downstreamUrl raw incomingHeaders relayId timeoutMs m =
     (let ex = fetch downstreamUrl (fetchOptionsFor raw incomingHeaders relayId m);
          deadline = timerDelay timeoutMs;
          aborted =
            At deadline (Inl (rethrow timeoutMs (JSError ''AbortError'' ''This operation was aborted'')))
      in case head ex of
           Never \<Rightarrow> aborted
         | At t r \<Rightarrow>
             (if \<not> t < deadline then aborted
              else
                (case r of
                   Inl e \<Rightarrow> At t (Inl (rethrow timeoutMs e))
                 | Inr (st, hs) \<Rightarrow>
                     (case payload ex of
                        Never \<Rightarrow> Never
                      | At t' (Inl e) \<Rightarrow> At (max t t') (Inl (rethrow timeoutMs e))
                      | At t' (Inr b) \<Rightarrow>
                          At (max t t')
                            (Inr \<lparr>status = st, resBody = b, resHeaders = filterHeaders hs\<rparr>)))))"

section \<open>The raw-body middleware and the handler (server.js)\<close>



text \<open>
  What the handler reads from its surroundings: the current mapping table, the timeout,
  and the platform's \<open>URL\<close> class and \<open>fetch\<close>. \<open>newURL\<close> gives the parsed URL (as its
  text), \<open>None\<close> when the constructor throws; \<open>searchParamsAppend u k v\<close> is the URL after
  \<^verbatim>\<open>url.searchParams.append(k, v)\<close>.
\<close>

record server =
  mapping :: json
  FORWARD_TIMEOUT_MS :: nat
  newURL :: "val \<Rightarrow> string option"
  searchParamsAppend :: "string \<Rightarrow> string \<Rightarrow> string \<Rightarrow> string"
  fetch :: "string \<Rightarrow> fetchOptions \<Rightarrow> exchange"






section \<open>An example deployment\<close>



section \<open>Properties of extractId\<close>

lemma extractId_not_array:
  assumes "\<And>e es. field b ''entry'' \<noteq> Some (JArr (e # es))"
  shows "extractId b = Inr None"
proof (cases "field b ''entry''")
  case None
  then show ?thesis by (simp add: extractId_def)
next
  case (Some v)
  show ?thesis
  proof (cases v)
    case (JArr xs)
    with Some assms have "xs = []" by (cases xs) auto
    with Some JArr show ?thesis by (simp add: extractId_def)
  qed (use Some in \<open>simp_all add: extractId_def\<close>)
qed

text \<open>
  C2, as the code has it: a first entry whose \<open>id\<close> is truthy yields \<open>String(id)\<close> (an
  error only if \<open>String\<close> itself throws); a value without a non-empty \<open>entry\<close> array, or
  whose first entry is not \<open>null\<close> and has no truthy \<open>id\<close>, yields \<open>null\<close> and no
  error. A falsy \<open>id\<close> (\<open>0\<close>, the empty string, \<open>false\<close>, \<open>null\<close>) counts as absent.
\<close>

theorem extractId_truthy_id:
  "(field b ''entry'' = Some (JArr (e # es)) \<and> field e ''id'' = Some x \<and> truthy x
      \<longrightarrow> extractId b = map_sum id Some (String_js x))
   \<and> ((\<forall>e es. field b ''entry'' \<noteq> Some (JArr (e # es)))
      \<longrightarrow> extractId b = Inr None)
   \<and> (field b ''entry'' = Some (JArr (e # es)) \<and> e \<noteq> JNull
        \<and> (field e ''id'' = None \<or> (\<exists>y. field e ''id'' = Some y \<and> \<not> truthy y))
      \<longrightarrow> extractId b = Inr None)"
proof (intro conjI impI)
  assume a: "field b ''entry'' = Some (JArr (e # es)) \<and> field e ''id'' = Some x \<and> truthy x"
  then have "e \<noteq> JNull" by (auto simp: field_def)
  with a show "extractId b = map_sum id Some (String_js x)"
    by (simp add: extractId_def)
next
  assume "\<forall>e es. field b ''entry'' \<noteq> Some (JArr (e # es))"
  then show "extractId b = Inr None" by (intro extractId_not_array) simp
next
  assume "field b ''entry'' = Some (JArr (e # es)) \<and> e \<noteq> JNull
        \<and> (field e ''id'' = None \<or> (\<exists>y. field e ''id'' = Some y \<and> \<not> truthy y))"
  then show "extractId b = Inr None"
    by (auto simp: extractId_def)
qed

theorem extractId_truthy_id_witness:
  "extractId (JObj [(''object'', JStr ''page''),
                    (''entry'', JArr [JObj [(''id'', JStr ''123456789''), (''time'', JNum ''1'')]])])
     = Inr (Some ''123456789'')
   \<and> extractId (JObj [(''object'', JStr ''page'')]) = Inr None
   \<and> extractId (JObj [(''entry'', JArr [JObj [(''time'', JNum ''1'')]])]) = Inr None"
proof -
  let ?e = "JObj [(''id'', JStr ''123456789''), (''time'', JNum ''1'')]"
  let ?b1 = "JObj [(''object'', JStr ''page''), (''entry'', JArr [?e])]"
  let ?b2 = "JObj [(''object'', JStr ''page'')]"
  let ?e3 = "JObj [(''time'', JNum ''1'')]"
  let ?b3 = "JObj [(''entry'', JArr [?e3])]"
  have "extractId ?b1 = Inr (Some ''123456789'')"
    using extractId_truthy_id [of ?b1 ?e "[]" "JStr ''123456789''"]
    by (simp add: field_def)
  moreover have "extractId ?b2 = Inr None"
    using extractId_truthy_id [of ?b2 ?e "[]" "JNull"]
    by (simp add: field_def)
  moreover have "extractId ?b3 = Inr None"
    using extractId_truthy_id [of ?b3 ?e3 "[]" "JNull"]
    by (simp add: field_def)
  ultimately show ?thesis by simp
qed

text \<open>
  The claim as the spec words it fails at \<^verbatim>\<open>{"entry":[{"id":0}]}\<close>: \<open>String(0)\<close> is
  \<open>"0"\<close>, and the code returns \<open>null\<close>.
\<close>

theorem extractId_falsy_id_counterexample:
  "String_js (JNum ''0'') = Inr ''0''
   \<and> extractId (JObj [(''entry'', JArr [JObj [(''id'', JNum ''0'')]])]) \<noteq> Inr (Some ''0'')"
  by (simp add: extractId_def field_def)

section \<open>Properties of the candidate list\<close>

lemma queryCandidates_cases:
  "queryCandidates req =
     (if truthyQ (map_of (query req) ''id'') then qvalues (map_of (query req) ''id'')
      else if truthyQ (map_of (query req) ''page_id'') then qvalues (map_of (query req) ''page_id'')
      else if truthyQ (map_of (query req) ''ig_id'') then qvalues (map_of (query req) ''ig_id'')
      else [])"
proof -
  have q: "\<And>v. (case v of Some (QArr vs) \<Rightarrow> vs | Some (QStr s) \<Rightarrow> (if s \<noteq> [] then [s] else []) | None \<Rightarrow> [])
            = (if truthyQ v then qvalues v else [])"
    by (auto split: option.splits qval.splits)
  show ?thesis
    unfolding queryCandidates_def queryId_def orElse_def q by simp
qed

text \<open>
  C1, as the code has it: the candidates are the body-derived identifier (when the parsed
  body is an object or array and \<open>extractId\<close> gives a non-empty string) followed by the
  values of one query field only, the first of \<open>id\<close>, \<open>page_id\<close>, \<open>ig_id\<close> whose value
  is truthy (a non-empty string or an array). A later field is not consulted once an
  earlier one is truthy.
\<close>

theorem candidates_first_truthy_field:
  "(bodyCandidates req = Inr fromBody \<longrightarrow>
      candidates req =
        Inr (fromBody @
          (if truthyQ (map_of (query req) ''id'') then qvalues (map_of (query req) ''id'')
           else if truthyQ (map_of (query req) ''page_id'') then qvalues (map_of (query req) ''page_id'')
           else if truthyQ (map_of (query req) ''ig_id'') then qvalues (map_of (query req) ''ig_id'')
           else [])))
   \<and> (truthy (parsedBody req) \<and> typeof (parsedBody req) = ''object''
        \<and> extractId (parsedBody req) = Inr (Some s) \<and> s \<noteq> []
      \<longrightarrow> bodyCandidates req = Inr [s])
   \<and> (\<not> truthy (parsedBody req) \<or> typeof (parsedBody req) \<noteq> ''object''
        \<or> extractId (parsedBody req) = Inr None \<or> extractId (parsedBody req) = Inr (Some [])
      \<longrightarrow> bodyCandidates req = Inr [])"
proof (intro conjI impI)
  assume "bodyCandidates req = Inr fromBody"
  then show "candidates req =
        Inr (fromBody @
          (if truthyQ (map_of (query req) ''id'') then qvalues (map_of (query req) ''id'')
           else if truthyQ (map_of (query req) ''page_id'') then qvalues (map_of (query req) ''page_id'')
           else if truthyQ (map_of (query req) ''ig_id'') then qvalues (map_of (query req) ''ig_id'')
           else []))"
    by (simp add: candidates_def queryCandidates_cases)
next
  assume "truthy (parsedBody req) \<and> typeof (parsedBody req) = ''object''
        \<and> extractId (parsedBody req) = Inr (Some s) \<and> s \<noteq> []"
  then show "bodyCandidates req = Inr [s]"
    by (simp add: bodyCandidates_def)
next
  assume "\<not> truthy (parsedBody req) \<or> typeof (parsedBody req) \<noteq> ''object''
        \<or> extractId (parsedBody req) = Inr None \<or> extractId (parsedBody req) = Inr (Some [])"
  then show "bodyCandidates req = Inr []"
    by (auto simp: bodyCandidates_def)
qed

theorem candidates_first_truthy_field_witness:
  "candidates \<lparr>reqMethod = ''POST'', headers = [],
       query = [(''id'', QArr [''7'', ''8'']), (''page_id'', QStr ''9'')],
       body = BodyOther, rawBody = [],
       parsedBody = JObj [(''entry'', JArr [JObj [(''id'', JStr ''123'')]])]\<rparr>
     = Inr [''123'', ''7'', ''8'']
   \<and> bodyCandidates \<lparr>reqMethod = ''GET'', headers = [], query = [], body = BodyOther,
         rawBody = [], parsedBody = JNull\<rparr> = Inr []"
proof -
  let ?pb = "JObj [(''entry'', JArr [JObj [(''id'', JStr ''123'')]])]"
  let ?r = "\<lparr>reqMethod = ''POST'', headers = [],
       query = [(''id'', QArr [''7'', ''8'']), (''page_id'', QStr ''9'')],
       body = BodyOther, rawBody = [], parsedBody = ?pb\<rparr>"
  let ?g = "\<lparr>reqMethod = ''GET'', headers = [], query = [], body = BodyOther,
         rawBody = [], parsedBody = JNull\<rparr>"
  have e: "extractId ?pb = Inr (Some ''123'')"
    by (simp add: extractId_def field_def)
  have b: "bodyCandidates ?r = Inr [''123'']"
    using candidates_first_truthy_field [of ?r "[]" "''123''"] e by simp
  have "candidates ?r = Inr [''123'', ''7'', ''8'']"
    using candidates_first_truthy_field [of ?r "[''123'']" "''123''"] b by simp
  moreover have "bodyCandidates ?g = Inr []"
    using candidates_first_truthy_field [of ?g "[]" "[]"] by simp
  ultimately show ?thesis by simp
qed

text \<open>
  The claim as the spec words it fails at \<^verbatim>\<open>?id=a&page_id=b\<close>: the code's only candidate
  is \<open>a\<close>.
\<close>

theorem candidates_all_fields_counterexample:
  "candidates \<lparr>reqMethod = ''GET'', headers = [],
       query = [(''id'', QStr ''a''), (''page_id'', QStr ''b'')],
       body = BodyOther, rawBody = [], parsedBody = JNull\<rparr> = Inr [''a'']
   \<and> spec_candidates [] [(''id'', QStr ''a''), (''page_id'', QStr ''b'')] = [''a'', ''b'']"
  by (simp add: candidates_def bodyCandidates_def queryCandidates_def queryId_def orElse_def
      spec_candidates_def)

section \<open>Properties of resolveDownstream\<close>

lemma firstMatch_skip:
  "list_all (\<lambda>p. \<not> matches pm p) pre \<Longrightarrow> firstMatch pm (pre @ cs) = firstMatch pm cs"
  by (induction pre) auto


lemma firstMatch_Some:
  "firstMatch pm cs = Some r \<Longrightarrow> \<exists>c. matches pm c \<and> r = \<lparr>key = Some c, url = getProp pm c\<rparr>"
  by (induction cs) (auto split: if_splits)

lemma firstMatch_hit:
  assumes "list_all (\<lambda>p. \<not> matches pm p) pre" and "matches pm c"
  shows "firstMatch pm (pre @ c # post) = Some \<lparr>key = Some c, url = getProp pm c\<rparr>"
  using assms by (simp add: firstMatch_skip)

lemma resolveDownstream_object:
  assumes "T \<noteq> JNull" and "field T (platformName P) = Some pm"
    and "truthy pm" and "typeof pm = ''object''" and "candidates req = Inr cs"
  shows "resolveDownstream T req P =
     (case firstMatch pm cs of
        Some r \<Rightarrow> Inr r
      | None \<Rightarrow>
          (if truthyV (getProp pm ''default'')
           then Inr \<lparr>key = Some ''default'', url = getProp pm ''default''\<rparr>
           else Inr \<lparr>key = firstOrNull cs, url = Json JNull\<rparr>))"
  using assms by (simp add: resolveDownstream_def)

lemma matches_object:
  "matches (JObj m) c =
     (c \<noteq> [] \<and> (case map_of m c of Some u \<Rightarrow> truthy u | None \<Rightarrow> c \<in> set objectPrototypeKeys))"
  by (simp add: matches_def getProp_def objectGet_def split: option.splits)


text \<open>
  C9, as the code has it. For the first candidate \<open>c\<close> not preceded by a match, on an
  object sub-mapping: the resolution succeeds with key \<open>c\<close> exactly when \<open>c\<close> is non-empty
  and the property read is truthy; a candidate mapped to the empty string is skipped, the
  result being decided by the later candidates, the fallback or failure; a candidate that
  is no own key and names a member of \<open>Object.prototype\<close> resolves to that inherited
  member.
\<close>

theorem resolveDownstream_truthy_lookup:
  "(T \<noteq> JNull \<and> field T (platformName P) = Some (JObj m)
      \<and> candidates req = Inr (pre @ c # post)
      \<and> list_all (\<lambda>p. \<not> matches (JObj m) p) pre
    \<longrightarrow> ((\<exists>u. truthyV u \<and> resolveDownstream T req P = Inr \<lparr>key = Some c, url = u\<rparr>)
          \<longleftrightarrow> (c \<noteq> [] \<and> truthyV (objectGet m c))))
   \<and> (T \<noteq> JNull \<and> field T (platformName P) = Some (JObj m)
      \<and> candidates req = Inr (pre @ c # post)
      \<and> list_all (\<lambda>p. \<not> matches (JObj m) p) pre
      \<and> map_of m c = Some (JStr [])
    \<longrightarrow> resolveDownstream T req P =
          (case firstMatch (JObj m) post of
             Some r \<Rightarrow> Inr r
           | None \<Rightarrow>
               (if truthyV (objectGet m ''default'')
                then Inr \<lparr>key = Some ''default'', url = objectGet m ''default''\<rparr>
                else Inr \<lparr>key = firstOrNull (pre @ c # post), url = Json JNull\<rparr>)))
   \<and> (T \<noteq> JNull \<and> field T (platformName P) = Some (JObj m)
      \<and> candidates req = Inr (pre @ c # post)
      \<and> list_all (\<lambda>p. \<not> matches (JObj m) p) pre
      \<and> c \<in> set objectPrototypeKeys \<and> map_of m c = None
    \<longrightarrow> resolveDownstream T req P = Inr \<lparr>key = Some c, url = Builtin c\<rparr>)"
proof (intro conjI impI)
  assume a: "T \<noteq> JNull \<and> field T (platformName P) = Some (JObj m)
      \<and> candidates req = Inr (pre @ c # post)
      \<and> list_all (\<lambda>p. \<not> matches (JObj m) p) pre"
  let ?pm = "JObj m"
  have res: "resolveDownstream T req P =
     (case firstMatch ?pm (pre @ c # post) of
        Some r \<Rightarrow> Inr r
      | None \<Rightarrow>
          (if truthyV (getProp ?pm ''default'')
           then Inr \<lparr>key = Some ''default'', url = getProp ?pm ''default''\<rparr>
           else Inr \<lparr>key = firstOrNull (pre @ c # post), url = Json JNull\<rparr>))"
    using a by (intro resolveDownstream_object) simp_all
  have m: "matches ?pm c = (c \<noteq> [] \<and> truthyV (objectGet m c))"
    by (simp add: matches_def getProp_def)
  show "(\<exists>u. truthyV u \<and> resolveDownstream T req P = Inr \<lparr>key = Some c, url = u\<rparr>)
          \<longleftrightarrow> (c \<noteq> [] \<and> truthyV (objectGet m c))"
  proof
    assume "c \<noteq> [] \<and> truthyV (objectGet m c)"
    then have mc: "matches ?pm c" by (simp add: m)
    with a have "firstMatch ?pm (pre @ c # post) = Some \<lparr>key = Some c, url = getProp ?pm c\<rparr>"
      by (simp add: firstMatch_hit)
    with res have "resolveDownstream T req P = Inr \<lparr>key = Some c, url = getProp ?pm c\<rparr>"
      by simp
    moreover from mc have "truthyV (getProp ?pm c)" by (simp add: matches_def)
    ultimately show "\<exists>u. truthyV u \<and> resolveDownstream T req P = Inr \<lparr>key = Some c, url = u\<rparr>"
      by blast
  next
    assume "\<exists>u. truthyV u \<and> resolveDownstream T req P = Inr \<lparr>key = Some c, url = u\<rparr>"
    then obtain u where u: "truthyV u"
      and r: "resolveDownstream T req P = Inr \<lparr>key = Some c, url = u\<rparr>" by blast
    have "matches ?pm c"
    proof (cases "firstMatch ?pm (pre @ c # post)")
      case (Some r')
      then obtain c' where c': "matches ?pm c'" "r' = \<lparr>key = Some c', url = getProp ?pm c'\<rparr>"
        using firstMatch_Some by blast
      from res Some r c' have "c' = c" by simp
      with c' show ?thesis by simp
    next
      case None
      show ?thesis
      proof (cases "truthyV (getProp ?pm ''default'')")
        case True
        with res None r have "c = ''default''" by simp
        with True show ?thesis by (simp add: matches_def)
      next
        case False
        with res None r have "u = Json JNull" by simp
        with u show ?thesis by simp
      qed
    qed
    then show "c \<noteq> [] \<and> truthyV (objectGet m c)" by (simp add: m)
  qed
next
  assume a: "T \<noteq> JNull \<and> field T (platformName P) = Some (JObj m)
      \<and> candidates req = Inr (pre @ c # post)
      \<and> list_all (\<lambda>p. \<not> matches (JObj m) p) pre
      \<and> map_of m c = Some (JStr [])"
  then have "\<not> matches (JObj m) c" by (simp add: matches_object)
  with a have "firstMatch (JObj m) (pre @ c # post) = firstMatch (JObj m) post"
    by (simp add: firstMatch_skip)
  moreover have "resolveDownstream T req P =
     (case firstMatch (JObj m) (pre @ c # post) of
        Some r \<Rightarrow> Inr r
      | None \<Rightarrow>
          (if truthyV (getProp (JObj m) ''default'')
           then Inr \<lparr>key = Some ''default'', url = getProp (JObj m) ''default''\<rparr>
           else Inr \<lparr>key = firstOrNull (pre @ c # post), url = Json JNull\<rparr>))"
    using a by (intro resolveDownstream_object) simp_all
  ultimately show "resolveDownstream T req P =
          (case firstMatch (JObj m) post of
             Some r \<Rightarrow> Inr r
           | None \<Rightarrow>
               (if truthyV (objectGet m ''default'')
                then Inr \<lparr>key = Some ''default'', url = objectGet m ''default''\<rparr>
                else Inr \<lparr>key = firstOrNull (pre @ c # post), url = Json JNull\<rparr>))"
    by (simp add: getProp_def split: option.splits)
next
  assume a: "T \<noteq> JNull \<and> field T (platformName P) = Some (JObj m)
      \<and> candidates req = Inr (pre @ c # post)
      \<and> list_all (\<lambda>p. \<not> matches (JObj m) p) pre
      \<and> c \<in> set objectPrototypeKeys \<and> map_of m c = None"
  then have "c \<noteq> []" by (auto simp: objectPrototypeKeys_def)
  with a have g: "getProp (JObj m) c = Builtin c" and mc: "matches (JObj m) c"
    by (simp_all add: matches_def getProp_def objectGet_def)
  with a have "firstMatch (JObj m) (pre @ c # post) = Some \<lparr>key = Some c, url = getProp (JObj m) c\<rparr>"
    by (simp add: firstMatch_hit)
  moreover have "resolveDownstream T req P =
     (case firstMatch (JObj m) (pre @ c # post) of
        Some r \<Rightarrow> Inr r
      | None \<Rightarrow>
          (if truthyV (getProp (JObj m) ''default'')
           then Inr \<lparr>key = Some ''default'', url = getProp (JObj m) ''default''\<rparr>
           else Inr \<lparr>key = firstOrNull (pre @ c # post), url = Json JNull\<rparr>))"
    using a by (intro resolveDownstream_object) simp_all
  ultimately show "resolveDownstream T req P = Inr \<lparr>key = Some c, url = Builtin c\<rparr>"
    using g by simp
qed


lemmas resolve_eval =
  field_def candidates_def bodyCandidates_def queryCandidates_def queryId_def orElse_def
  matches_def getProp_def objectGet_def objectPrototypeKeys_def



theorem resolveDownstream_truthy_lookup_witness:
  "(\<exists>u. truthyV u \<and>
      resolveDownstream
        (JObj [(''messenger'', JObj [(''a'', JStr []), (''b'', JStr ''http://d/b'')])])
        \<lparr>reqMethod = ''GET'', headers = [], query = [(''id'', QArr [''a'', ''b''])],
           body = BodyOther, rawBody = [], parsedBody = JNull\<rparr> Messenger
      = Inr \<lparr>key = Some ''b'', url = u\<rparr>)
   \<and> resolveDownstream
        (JObj [(''messenger'', JObj [(''a'', JStr []), (''b'', JStr ''http://d/b'')])])
        \<lparr>reqMethod = ''GET'', headers = [], query = [(''id'', QArr [''a'', ''b''])],
           body = BodyOther, rawBody = [], parsedBody = JNull\<rparr> Messenger
      = Inr \<lparr>key = Some ''b'', url = Json (JStr ''http://d/b'')\<rparr>
   \<and> resolveDownstream
        (JObj [(''messenger'', JObj [])])
        \<lparr>reqMethod = ''GET'', headers = [], query = [(''id'', QStr ''constructor'')],
           body = BodyOther, rawBody = [], parsedBody = JNull\<rparr> Messenger
      = Inr \<lparr>key = Some ''constructor'', url = Builtin ''constructor''\<rparr>"
proof -
  let ?m = "[(''a'', JStr []), (''b'', JStr ''http://d/b'')]"
  let ?T = "JObj [(''messenger'', JObj ?m)]"
  let ?E = "JObj [(''messenger'', JObj [])]"
  let ?a = "\<lparr>reqMethod = ''GET'', headers = [], query = [(''id'', QArr [''a'', ''b''])],
           body = BodyOther, rawBody = [], parsedBody = JNull\<rparr>"
  let ?b = "\<lparr>reqMethod = ''GET'', headers = [], query = [(''id'', QStr ''constructor'')],
           body = BodyOther, rawBody = [], parsedBody = JNull\<rparr>"
  have "\<exists>u. truthyV u \<and> resolveDownstream ?T ?a Messenger = Inr \<lparr>key = Some ''b'', url = u\<rparr>"
    using resolveDownstream_truthy_lookup [of ?T Messenger ?m ?a "[''a'']" "''b''" "[]"]
    by (simp add: resolve_eval)
  moreover have "resolveDownstream ?T ?a Messenger
      = Inr \<lparr>key = Some ''b'', url = Json (JStr ''http://d/b'')\<rparr>"
    using resolveDownstream_truthy_lookup [of ?T Messenger ?m ?a "[]" "''a''" "[''b'']"]
    by (simp add: resolve_eval)
  moreover have "resolveDownstream ?E ?b Messenger
      = Inr \<lparr>key = Some ''constructor'', url = Builtin ''constructor''\<rparr>"
    using resolveDownstream_truthy_lookup [of ?E Messenger "[]" ?b "[]" "''constructor''" "[]"]
    by (simp add: resolve_eval)
  ultimately show ?thesis by simp
qed

text \<open>
  The claim without the non-emptiness test fails at \<^verbatim>\<open>?id=&id=\<close> on a sub-mapping with
  the empty key: the read is truthy and the candidate does not match.
\<close>

theorem resolveDownstream_empty_candidate_counterexample:
  "candidates
      \<lparr>reqMethod = ''GET'', headers = [], query = [(''id'', QArr [[], []])],
         body = BodyOther, rawBody = [], parsedBody = JNull\<rparr> = Inr [[], []]
   \<and> truthyV (getProp (JObj [([], JStr ''http://d/e'')]) [])
   \<and> resolveDownstream
      (JObj [(''messenger'', JObj [([], JStr ''http://d/e'')])])
      \<lparr>reqMethod = ''GET'', headers = [], query = [(''id'', QArr [[], []])],
         body = BodyOther, rawBody = [], parsedBody = JNull\<rparr> Messenger
     = Inr \<lparr>key = None, url = Json JNull\<rparr>"
  by (simp add: resolveDownstream_def resolve_eval)

section \<open>Properties of the header filters\<close>

lemma map_fst_setProp:
  "map fst (setProp kvs k v) = (if k \<in> set (map fst kvs) then map fst kvs else map fst kvs @ [k])"
  by (induction kvs) (force split: if_splits)+

lemma keys_setProp: "fst ` set (setProp kvs k v) = insert k (fst ` set kvs)"
proof -
  have "set (map fst (setProp kvs k v)) = insert k (set (map fst kvs))"
    unfolding map_fst_setProp by auto
  then show ?thesis by simp
qed

lemma distinct_setProp:
  "distinct (map fst kvs) \<Longrightarrow> distinct (map fst (setProp kvs k v))"
proof (induction kvs)
  case Nil
  then show ?case by simp
next
  case (Cons a kvs)
  obtain k' v' where a: "a = (k', v')" by (cases a)
  show ?case
  proof (cases "k' = k")
    case True
    with Cons.prems a show ?thesis by simp
  next
    case False
    from Cons.prems a have "k' \<notin> fst ` set kvs" and "distinct (map fst kvs)" by auto
    with False Cons.IH a show ?thesis
      using keys_setProp [of kvs k v] by auto
  qed
qed

lemma setProp_fresh: "k \<notin> fst ` set kvs \<Longrightarrow> setProp kvs k v = kvs @ [(k, v)]"
  by (induction kvs) auto

lemma foldl_keep_distinct:
  "distinct (map fst (acc @ hs)) \<Longrightarrow>
   foldl (\<lambda>filtered (k, v).
            if toLowerCase k \<notin> set HOP_BY_HOP_HEADERS then setProp filtered k v else filtered)
      acc hs
   = acc @ filter (\<lambda>(k, v). toLowerCase k \<notin> set HOP_BY_HOP_HEADERS) hs"
proof (induction hs arbitrary: acc)
  case Nil
  then show ?case by simp
next
  case (Cons h hs)
  obtain k v where h: "h = (k, v)" by (cases h)
  show ?case
  proof (cases "toLowerCase k \<notin> set HOP_BY_HOP_HEADERS")
    case True
    from Cons.prems h have fresh: "k \<notin> fst ` set acc" by auto
    then have sp: "setProp acc k v = acc @ [(k, v)]" by (rule setProp_fresh)
    from Cons.prems h have "distinct (map fst ((acc @ [(k, v)]) @ hs))" by simp
    from Cons.IH [OF this] True h sp show ?thesis by simp
  next
    case False
    from Cons.prems h have "distinct (map fst (acc @ hs))" by simp
    from Cons.IH [OF this] False h show ?thesis by simp
  qed
qed

lemma foldl_keep_invariant:
  "distinct (map fst acc) \<Longrightarrow> list_all (\<lambda>(k, v). toLowerCase k \<notin> set HOP_BY_HOP_HEADERS) acc \<Longrightarrow>
   distinct (map fst
     (foldl (\<lambda>filtered (k, v).
            if toLowerCase k \<notin> set HOP_BY_HOP_HEADERS then setProp filtered k v else filtered)
      acc hs))
   \<and> list_all (\<lambda>(k, v). toLowerCase k \<notin> set HOP_BY_HOP_HEADERS)
     (foldl (\<lambda>filtered (k, v).
            if toLowerCase k \<notin> set HOP_BY_HOP_HEADERS then setProp filtered k v else filtered)
      acc hs)"
proof (induction hs arbitrary: acc)
  case Nil
  then show ?case by simp
next
  case (Cons h hs)
  obtain k v where h: "h = (k, v)" by (cases h)
  show ?case
  proof (cases "toLowerCase k \<notin> set HOP_BY_HOP_HEADERS")
    case True
    have d: "distinct (map fst (setProp acc k v))"
      using Cons.prems(1) by (rule distinct_setProp)
    have "\<And>p. p \<in> set (setProp acc k v) \<Longrightarrow> fst p \<in> insert k (fst ` set acc)"
      using keys_setProp [of acc k v] by (metis imageI)
    with Cons.prems(2) True
    have a: "list_all (\<lambda>(k, v). toLowerCase k \<notin> set HOP_BY_HOP_HEADERS) (setProp acc k v)"
      by (fastforce simp: list_all_iff)
    from Cons.IH [OF d a] True h show ?thesis by simp
  next
    case False
    from Cons.IH [OF Cons.prems] False h show ?thesis by simp
  qed
qed

text \<open>
  On a header set with one entry per name (every header object, and every response
  without a repeated \<open>Set-Cookie\<close>) both filters drop exactly the entries whose name is on
  the denylist, compared in lower case, and keep the others in order, with their casing
  and value.
\<close>

lemma sanitize_object_is_filter:
  "distinct (map fst hs) \<Longrightarrow>
     sanitizeIncomingHeaders hs = filter (\<lambda>(k, v). toLowerCase k \<notin> set HOP_BY_HOP_HEADERS) hs
     \<and> filterHeaders hs = filter (\<lambda>(k, v). toLowerCase k \<notin> set HOP_BY_HOP_HEADERS) hs"
  using foldl_keep_distinct [of "[]" hs]
  by (simp add: sanitizeIncomingHeaders_def filterHeaders_def)

text \<open>
  Both filters are idempotent, and nothing on the denylist is left in their result, on
  every input.
\<close>

lemma sanitize_idempotent:
  "sanitizeIncomingHeaders (sanitizeIncomingHeaders hs) = sanitizeIncomingHeaders hs
   \<and> filterHeaders (filterHeaders hs) = filterHeaders hs
   \<and> list_all (\<lambda>(k, v). toLowerCase k \<notin> set HOP_BY_HOP_HEADERS) (filterHeaders hs)
   \<and> list_all (\<lambda>(k, v). toLowerCase k \<notin> set HOP_BY_HOP_HEADERS) (sanitizeIncomingHeaders hs)"
proof -
  let ?P = "\<lambda>(k, v). toLowerCase k \<notin> set HOP_BY_HOP_HEADERS"
  have s: "sanitizeIncomingHeaders = filterHeaders"
    by (simp add: sanitizeIncomingHeaders_def filterHeaders_def fun_eq_iff)
  have inv: "distinct (map fst (filterHeaders hs)) \<and> list_all ?P (filterHeaders hs)"
    using foldl_keep_invariant [of "[]" hs] by (simp add: filterHeaders_def)
  then have "filterHeaders (filterHeaders hs) = filter ?P (filterHeaders hs)"
    using foldl_keep_distinct [of "[]" "filterHeaders hs"] by (simp add: filterHeaders_def)
  also have "\<dots> = filterHeaders hs"
    using inv by (simp add: list_all_iff)
  finally show ?thesis using inv by (simp add: s)
qed

text \<open>
  C4 at a response with two \<open>Set-Cookie\<close> headers. \<open>filterHeaders\<close> is documented as
  keeping everything but the hop-by-hop headers; its assignment \<^verbatim>\<open>filtered[key] = value\<close>
  overwrites, so only the last value of a repeated header is left.
\<close>

theorem filterHeaders_repeated_set_cookie:
  "filterHeaders [(''set-cookie'', ''a=1''), (''set-cookie'', ''b=2''), (''x-custom'', ''foo'')]
     = [(''set-cookie'', ''b=2''), (''x-custom'', ''foo'')]"
  by code_simp

section \<open>Properties of forwardRequest\<close>

text \<open>
  C5 at a destination that sends the response head after 10 ms and completes the body
  after 60 s, or never, under a timeout of 5000 ms: the timer is cleared once the head
  has arrived, so the forward returns after 60 s with the response, or never returns.
\<close>

theorem forwardRequest_slow_body:
  "forwardRequest
      (\<lambda>u opts. \<lparr>head = At 10 (Inr (200, [])), payload = At 60000 (Inr [1, 2, 3])\<rparr>)
      ''http://d/x'' [] [] None 5000 ''POST''
     = At 60000 (Inr \<lparr>status = 200, resBody = [1, 2, 3], resHeaders = []\<rparr>)
   \<and> forwardRequest
      (\<lambda>u opts. \<lparr>head = At 10 (Inr (200, [])), payload = Never\<rparr>)
      ''http://d/x'' [] [] None 5000 ''POST''
     = Never"
  by (simp add: forwardRequest_def timerDelay_def filterHeaders_def)


text \<open>
  The wait for the response head is bounded: when \<open>fetch\<close> has not settled before the
  timer fires, the forward rejects at the deadline with the timeout error, whose message
  no other rejection carries unless \<open>fetch\<close> itself rejects with an \<open>AbortError\<close>.
\<close>

lemma forwardRequest_head_timeout:
  assumes "head (fetch' u (fetchOptionsFor raw hs0 rid m)) = Never
     \<or> (\<exists>t x. head (fetch' u (fetchOptionsFor raw hs0 rid m)) = At t x \<and> \<not> t < timerDelay ms)"
  shows "forwardRequest fetch' u raw hs0 rid ms m
     = At (timerDelay ms)
         (Inl (JSError ''Error'' (''Request timeout after '' @ digits ms @ ''ms'')))"
  using assms by (auto simp: forwardRequest_def rethrow_def)

lemma forwardRequest_network_error:
  assumes "head (fetch' u (fetchOptionsFor raw hs0 rid m)) = At t (Inl e)"
    and "t < timerDelay ms" and "name e \<noteq> ''AbortError''"
  shows "forwardRequest fetch' u raw hs0 rid ms m = At t (Inl e)"
  using assms by (simp add: forwardRequest_def rethrow_def)

section \<open>Properties of the middleware and the handler\<close>












end
